theory Spec2Isabelle
  imports Main
begin

section \<open>Python values, exceptions and the runtime\<close>

text \<open>
  The values that \<^verbatim>\<open>json.loads\<close> produces, which are also the values that flow
  through the untyped parts of the agent: a float is carried by its \<^verbatim>\<open>repr\<close>, an
  object by its items in insertion order.
\<close>

datatype json =
    JNull
  | JBool bool
  | JInt int
  | JFloat string
  | JStr string
  | JList "json list"
  | JObj "(string \<times> json) list"

text \<open>The interpreter operations of the agent that can raise on a value of the wrong type.\<close>

datatype py_op = OpContains | OpGetItem | OpGet | OpHash | OpKwargs

text \<open>
  The exceptions (subclasses of \<^verbatim>\<open>Exception\<close>) of a run. \<open>BackendError\<close> is whatever
  \<^verbatim>\<open>_call_gradient\<close> re-raises, with its text; \<open>ToolError\<close> is an exception of a tool's own,
  with its text; \<open>JSONDecodeError\<close>, \<open>RecursionError\<close> and \<open>ValueError\<close> (a plain
  \<^verbatim>\<open>ValueError\<close>, not its subclass \<^verbatim>\<open>JSONDecodeError\<close>) are what \<^verbatim>\<open>json.loads\<close> raises; the
  others are raised by the interpreter.
\<close>

datatype exn =
    BackendError string
  | TypeError py_op json
  | KeyError string
  | AttributeError json string
  | ToolError string
  | JSONDecodeError string
  | RecursionError string
  | ValueError string

text \<open>The handler \<^verbatim>\<open>except json.JSONDecodeError\<close> catches this exception and no other.\<close>

definition is_decode_error :: "exn \<Rightarrow> bool" where
  "is_decode_error e = (case e of JSONDecodeError _ \<Rightarrow> True | _ \<Rightarrow> False)"

text \<open>
  What the Python runtime and its library supply: \<open>loads\<close> is \<^verbatim>\<open>json.loads\<close> on a string,
  which returns the value or raises (\<^verbatim>\<open>JSONDecodeError\<close> on a text it does not accept,
  \<^verbatim>\<open>RecursionError\<close> on a text nested too deeply, \<^verbatim>\<open>ValueError\<close> on an integer with too
  many digits); it accepts more than the JSON grammar, the texts \<^verbatim>\<open>NaN\<close>, \<^verbatim>\<open>Infinity\<close> and
  \<^verbatim>\<open>-Infinity\<close> among them. \<open>str_of\<close> is \<^verbatim>\<open>str()\<close> on a value that is not a string;
  \<open>exn_text\<close> is \<^verbatim>\<open>str(e)\<close> of an exception the interpreter or the library raised.
\<close>

record runtime =
  loads :: "string \<Rightarrow> exn + json"
  str_of :: "json \<Rightarrow> string"
  exn_text :: "exn \<Rightarrow> string"

definition py_str :: "runtime \<Rightarrow> json \<Rightarrow> string" where
  "py_str rt v = (case v of JStr s \<Rightarrow> s | _ \<Rightarrow> str_of rt v)"

definition exn_str :: "runtime \<Rightarrow> exn \<Rightarrow> string" where
  "exn_str rt e = (case e of BackendError t \<Rightarrow> t | ToolError t \<Rightarrow> t | _ \<Rightarrow> exn_text rt e)"

fun is_substring :: "string \<Rightarrow> string \<Rightarrow> bool" where
  "is_substring k [] = (k = [])"
| "is_substring k (c # cs) = (take (length k) (c # cs) = k \<or> is_substring k cs)"

text \<open>\<^verbatim>\<open>key in data\<close>: keys of a dict, elements of a list, substrings of a string; anything
  else is not iterable.\<close>

definition py_contains :: "runtime \<Rightarrow> string \<Rightarrow> json \<Rightarrow> exn + bool" where
  "py_contains rt key data =
     (case data of
        JObj kvs \<Rightarrow> Inr (map_of kvs key \<noteq> None)
      | JList xs \<Rightarrow> Inr (List.member xs (JStr key))
      | JStr s \<Rightarrow> Inr (is_substring key s)
      | _ \<Rightarrow> Inl (TypeError OpContains data))"

text \<open>\<^verbatim>\<open>data[key]\<close> with a string key.\<close>

definition py_getitem :: "runtime \<Rightarrow> json \<Rightarrow> string \<Rightarrow> exn + json" where
  "py_getitem rt data key =
     (case data of
        JObj kvs \<Rightarrow> (case map_of kvs key of Some v \<Rightarrow> Inr v | None \<Rightarrow> Inl (KeyError key))
      | _ \<Rightarrow> Inl (TypeError OpGetItem data))"

text \<open>\<^verbatim>\<open>data.get(key, default)\<close>.\<close>

definition py_get :: "runtime \<Rightarrow> json \<Rightarrow> string \<Rightarrow> json \<Rightarrow> exn + json" where
  "py_get rt data key dflt =
     (case data of
        JObj kvs \<Rightarrow> Inr (case map_of kvs key of Some v \<Rightarrow> v | None \<Rightarrow> dflt)
      | _ \<Rightarrow> Inl (AttributeError data ''get''))"

text \<open>Lists and dicts cannot be hashed, so they cannot be looked up in a dict.\<close>

definition hashable :: "json \<Rightarrow> bool" where
  "hashable v = (case v of JList _ \<Rightarrow> False | JObj _ \<Rightarrow> False | _ \<Rightarrow> True)"

section \<open>Messages and sessions\<close>

record message =
  role :: string
  content :: json

text \<open>A message as the dict \<^verbatim>\<open>{"role": ..., "content": ...}\<close> sent to the completion API.\<close>

type_synonym msg_dict = "(string \<times> json) list"

definition dict_msg :: "string \<Rightarrow> json \<Rightarrow> msg_dict" where
  "dict_msg r c = [(''role'', JStr r), (''content'', c)]"

definition to_dict :: "message \<Rightarrow> msg_dict" where
  "to_dict m = dict_msg (role m) (content m)"

record session =
  session_id :: string
  user_id :: string
  app_name :: string
  history :: "message list"

definition Session :: "string \<Rightarrow> string \<Rightarrow> string \<Rightarrow> session" where
  "Session sid uid app = \<lparr>session_id = sid, user_id = uid, app_name = app, history = []\<rparr>"

definition add_message :: "session \<Rightarrow> string \<Rightarrow> json \<Rightarrow> session" where
  "add_message s r c = s\<lparr>history := history s @ [\<lparr>role = r, content = c\<rparr>]\<rparr>"

definition get_messages_dict :: "session \<Rightarrow> msg_dict list" where
  "get_messages_dict s = map to_dict (history s)"

text \<open>
  The state of a run: the sessions of the \<^verbatim>\<open>SessionService\<close>, and the log of the calls made
  to the completion API (the message list of each call, oldest first).
\<close>

record world =
  sessions :: "string \<rightharpoonup> session"
  calls :: "msg_dict list list"

definition session_key :: "string \<Rightarrow> string \<Rightarrow> string \<Rightarrow> string" where
  "session_key app uid sid = app @ '':'' @ uid @ '':'' @ sid"

definition create_session :: "string \<Rightarrow> string \<Rightarrow> string \<Rightarrow> world \<Rightarrow> session \<times> world" where
  "create_session app uid sid w =
     (let s = Session sid uid app
      in (s, w\<lparr>sessions := (sessions w)(session_key app uid sid \<mapsto> s)\<rparr>))"

definition get_session :: "string \<Rightarrow> string \<Rightarrow> string \<Rightarrow> world \<Rightarrow> session option" where
  "get_session app uid sid w = sessions w (session_key app uid sid)"

definition delete_session :: "string \<Rightarrow> string \<Rightarrow> string \<Rightarrow> world \<Rightarrow> world" where
  "delete_session app uid sid w =
     (if session_key app uid sid \<in> dom (sessions w)
      then w\<lparr>sessions := (sessions w)(session_key app uid sid := None)\<rparr>
      else w)"

section \<open>Tools and agents\<close>

text \<open>
  A tool's function takes the keyword arguments and returns a value or raises. The state of
  an agent object: its tools and its sub-agents in registration order, and the registry
  \<open>tools_map\<close>, an attribute of its own that the tool calls are looked up in.
\<close>

datatype tool =
  Tool (tool_name: string) (tool_description: string) (func: "(string \<times> json) list \<Rightarrow> exn + json")

datatype agent =
  Agent (name: string) (description: string) (instruction: string)
    (tools: "tool list") (tools_map: "string \<Rightarrow> tool option") (sub_agents: "agent list")

text \<open>
  The constructor \<^verbatim>\<open>GradientAgent.__init__\<close>, for an environment that holds an API key: the
  registry is built here, once, by \<^verbatim>\<open>{tool.name: tool for tool in self.tools}\<close>, so of two
  tools of one name the later one stays.
\<close>

definition GradientAgent ::
    "string \<Rightarrow> string \<Rightarrow> string \<Rightarrow> tool list \<Rightarrow> agent list \<Rightarrow> agent" where
  "GradientAgent n d i ts subs =
     Agent n d i ts (map_of (rev (map (\<lambda>t. (tool_name t, t)) ts))) subs"


text \<open>
  \<^verbatim>\<open>Tool.execute(**kwargs)\<close>: a keyword \<^verbatim>\<open>self\<close> collides with the method's own parameter
  and raises before the tool's function runs.
\<close>

definition execute :: "tool \<Rightarrow> (string \<times> json) list \<Rightarrow> exn + json" where
  "execute t kwargs =
     (if map_of kwargs ''self'' \<noteq> None then Inl (TypeError OpKwargs (JObj kwargs))
      else func t kwargs)"

definition build_system_prompt :: "agent \<Rightarrow> string" where
  "build_system_prompt ag =
     (let prompt = instruction ag @ ''\<newline>\<newline>'';
          prompt =
            (if tools ag \<noteq> []
             then foldl (\<lambda>p t. p @ ''- '' @ tool_name t @ '': '' @ tool_description t @ ''\<newline>'')
                    (prompt @ ''AVAILABLE TOOLS:\<newline>'') (tools ag) @ ''\<newline>''
             else prompt);
          prompt =
            (if sub_agents ag \<noteq> []
             then foldl (\<lambda>p a. p @ ''- '' @ name a @ '': '' @ description a @ ''\<newline>'')
                    (prompt @ ''AVAILABLE SUB-AGENTS:\<newline>'') (sub_agents ag) @ ''\<newline>''
             else prompt)
      in prompt)"

section \<open>The completion API\<close>

text \<open>
  The replies of the completion endpoint, by the number of the call: \<open>Inr\<close> the assistant
  text, \<open>Inl\<close> the text of a failure (a transport failure, a status that is not 2xx, or a
  reply of the wrong shape), which \<^verbatim>\<open>_call_gradient\<close> logs and re-raises.
\<close>

type_synonym backend = "nat \<Rightarrow> string + string"

definition call_gradient :: "backend \<Rightarrow> msg_dict list \<Rightarrow> world \<Rightarrow> (exn + string) \<times> world" where
  "call_gradient be messages w =
     (case be (length (calls w)) of
        Inl t \<Rightarrow> (Inl (BackendError t), w\<lparr>calls := calls w @ [messages]\<rparr>)
      | Inr text \<Rightarrow> (Inr text, w\<lparr>calls := calls w @ [messages]\<rparr>))"

section \<open>The orchestration loop\<close>

definition handle_tool_call :: "runtime \<Rightarrow> agent \<Rightarrow> json \<Rightarrow> json \<Rightarrow> exn + string" where
  "handle_tool_call rt ag tname arguments =
     (if \<not> hashable tname then Inl (TypeError OpHash tname)
      else
        (case (case tname of JStr n \<Rightarrow> tools_map ag n | _ \<Rightarrow> None) of
           None \<Rightarrow> Inr (''Error: Tool '' @ [CHR 0x27] @ py_str rt tname @ [CHR 0x27] @ '' not found'')
         | Some t \<Rightarrow>
             (case (case arguments of
                      JObj kwargs \<Rightarrow> execute t kwargs
                    | _ \<Rightarrow> Inl (TypeError OpKwargs arguments)) of
                Inr result \<Rightarrow> Inr (py_str rt result)
              | Inl e \<Rightarrow> Inr (''Error executing tool: '' @ exn_str rt e))))"

text \<open>The tool branch of the loop up to the tool result: the name, the arguments, the call.\<close>

definition tool_branch :: "runtime \<Rightarrow> agent \<Rightarrow> json \<Rightarrow> exn + string" where
  "tool_branch rt ag response_data =
     (case py_getitem rt response_data ''tool'' of
        Inl e \<Rightarrow> Inl e
      | Inr tname \<Rightarrow>
          (case py_get rt response_data ''arguments'' (JObj []) of
             Inl e \<Rightarrow> Inl e
           | Inr arguments \<Rightarrow> handle_tool_call rt ag tname arguments))"

text \<open>The delegation branch of the loop up to the delegation: the agent name and the message.\<close>

definition agent_branch :: "runtime \<Rightarrow> json \<Rightarrow> exn + json \<times> json" where
  "agent_branch rt response_data =
     (case py_getitem rt response_data ''agent'' of
        Inl e \<Rightarrow> Inl e
      | Inr aname \<Rightarrow>
          (case py_get rt response_data ''message'' (JStr []) of
             Inl e \<Rightarrow> Inl e
           | Inr agent_message \<Rightarrow> Inr (aname, agent_message)))"

definition max_iterations :: nat where
  "max_iterations = 10"

definition seed_messages :: "agent \<Rightarrow> json \<Rightarrow> session \<Rightarrow> msg_dict list" where
  "seed_messages ag msg s =
     [dict_msg ''system'' (JStr (build_system_prompt ag))] @ get_messages_dict s
       @ [dict_msg ''user'' msg]"

lemma find_sub_agent_size [termination_simp]:
  "find P xs = Some (x::agent) \<Longrightarrow> size x < Suc (size_list size xs)"
  by (induction xs) (auto split: if_splits)

function process_message ::
    "runtime \<Rightarrow> backend \<Rightarrow> agent \<Rightarrow> json \<Rightarrow> session \<Rightarrow> world \<Rightarrow> (exn + string) \<times> world"
  and loop ::
    "runtime \<Rightarrow> backend \<Rightarrow> agent \<Rightarrow> session \<Rightarrow> nat \<Rightarrow> msg_dict list \<Rightarrow> world
       \<Rightarrow> (exn + string) \<times> world"
  and handle_agent_delegation ::
    "runtime \<Rightarrow> backend \<Rightarrow> agent \<Rightarrow> json \<Rightarrow> json \<Rightarrow> session \<Rightarrow> world
       \<Rightarrow> (exn + string) \<times> world"
where
  "process_message rt be ag msg s w = loop rt be ag s 0 (seed_messages ag msg s) w"
| "loop rt be ag s iteration messages w =
     (if iteration < max_iterations then
        (case call_gradient be messages w of
           (Inl e, w1) \<Rightarrow> (Inl e, w1)
         | (Inr response, w1) \<Rightarrow>
             (case loads rt response of
                Inl e \<Rightarrow> (if is_decode_error e then (Inr response, w1) else (Inl e, w1))
              | Inr response_data \<Rightarrow>
                  (case py_contains rt ''tool'' response_data of
                     Inl e \<Rightarrow> (Inl e, w1)
                   | Inr True \<Rightarrow>
                       (case tool_branch rt ag response_data of
                          Inl e \<Rightarrow> (Inl e, w1)
                        | Inr tool_result \<Rightarrow>
                            loop rt be ag s (iteration + 1)
                              (messages @ [dict_msg ''assistant'' (JStr response),
                                 dict_msg ''user'' (JStr (''Tool result: '' @ tool_result))])
                              w1)
                   | Inr False \<Rightarrow>
                       (case py_contains rt ''agent'' response_data of
                          Inl e \<Rightarrow> (Inl e, w1)
                        | Inr True \<Rightarrow>
                            (case agent_branch rt response_data of
                               Inl e \<Rightarrow> (Inl e, w1)
                             | Inr (aname, agent_message) \<Rightarrow>
                                 (case handle_agent_delegation rt be ag aname agent_message s w1 of
                                    (Inl e, w2) \<Rightarrow> (Inl e, w2)
                                  | (Inr agent_result, w2) \<Rightarrow>
                                      loop rt be ag s (iteration + 1)
                                        (messages @ [dict_msg ''assistant'' (JStr response),
                                           dict_msg ''user''
                                             (JStr (''Sub-agent result: '' @ agent_result))])
                                        w2))
                        | Inr False \<Rightarrow> (Inr response, w1)))))
      else (Inr ''Error: Maximum iterations reached'', w))"
| "handle_agent_delegation rt be ag aname msg s w =
     (case find (\<lambda>a. JStr (name a) = aname) (sub_agents ag) of
        None \<Rightarrow>
          (Inr (''Error: Sub-agent '' @ [CHR 0x27] @ py_str rt aname @ [CHR 0x27] @ '' not found''), w)
      | Some sub_agent \<Rightarrow>
          (case process_message rt be sub_agent msg s w of
             (Inl e, w') \<Rightarrow> (Inr (''Error delegating to sub-agent: '' @ exn_str rt e), w')
           | (Inr result, w') \<Rightarrow> (Inr result, w')))"
  by pat_completeness auto

termination
  apply (relation "measures [
     (\<lambda>x. case x of Inl (rt, be, ag, msg, s, w) \<Rightarrow> size ag
                   | Inr (Inl (rt, be, ag, s, it, ms, w)) \<Rightarrow> size ag
                   | Inr (Inr (rt, be, ag, an, msg, s, w)) \<Rightarrow> size ag),
     (\<lambda>x. case x of Inl (rt, be, ag, msg, s, w) \<Rightarrow> max_iterations + 2
                   | Inr (Inl (rt, be, ag, s, it, ms, w)) \<Rightarrow> max_iterations - it + 1
                   | Inr (Inr (rt, be, ag, an, msg, s, w)) \<Rightarrow> 0)]")
      apply simp_all
  subgoal for ag aname x2
    by (cases ag) (auto dest: find_sub_agent_size)
  done

declare process_message.simps [simp del] loop.simps [simp del]
  handle_agent_delegation.simps [simp del]

text \<open>
  The body of the loop on its own: one iteration either continues with a longer working list
  or stops the loop with an answer or an exception. \<open>iterations k\<close> runs up to \<open>k\<close> of
  them; \<open>loop_iterations\<close> below shows that the loop is \<open>iterations\<close> under the cap.
\<close>

datatype step = Continue "msg_dict list" world | Stop "exn + string" world

definition iteration ::
    "runtime \<Rightarrow> backend \<Rightarrow> agent \<Rightarrow> session \<Rightarrow> msg_dict list \<Rightarrow> world \<Rightarrow> step" where
  "iteration rt be ag s messages w =
     (case call_gradient be messages w of
        (Inl e, w1) \<Rightarrow> Stop (Inl e) w1
      | (Inr response, w1) \<Rightarrow>
          (case loads rt response of
             Inl e \<Rightarrow> (if is_decode_error e then Stop (Inr response) w1 else Stop (Inl e) w1)
           | Inr response_data \<Rightarrow>
               (case py_contains rt ''tool'' response_data of
                  Inl e \<Rightarrow> Stop (Inl e) w1
                | Inr True \<Rightarrow>
                    (case tool_branch rt ag response_data of
                       Inl e \<Rightarrow> Stop (Inl e) w1
                     | Inr tool_result \<Rightarrow>
                         Continue
                           (messages @ [dict_msg ''assistant'' (JStr response),
                              dict_msg ''user'' (JStr (''Tool result: '' @ tool_result))])
                           w1)
                | Inr False \<Rightarrow>
                    (case py_contains rt ''agent'' response_data of
                       Inl e \<Rightarrow> Stop (Inl e) w1
                     | Inr True \<Rightarrow>
                         (case agent_branch rt response_data of
                            Inl e \<Rightarrow> Stop (Inl e) w1
                          | Inr (aname, agent_message) \<Rightarrow>
                              (case handle_agent_delegation rt be ag aname agent_message s w1 of
                                 (Inl e, w2) \<Rightarrow> Stop (Inl e) w2
                               | (Inr agent_result, w2) \<Rightarrow>
                                   Continue
                                     (messages @ [dict_msg ''assistant'' (JStr response),
                                        dict_msg ''user''
                                          (JStr (''Sub-agent result: '' @ agent_result))])
                                     w2))
                     | Inr False \<Rightarrow> Stop (Inr response) w1))))"

fun iterations ::
    "nat \<Rightarrow> runtime \<Rightarrow> backend \<Rightarrow> agent \<Rightarrow> session \<Rightarrow> msg_dict list \<Rightarrow> world \<Rightarrow> step" where
  "iterations 0 rt be ag s messages w = Continue messages w"
| "iterations (Suc k) rt be ag s messages w =
     (case iteration rt be ag s messages w of
        Continue messages' w' \<Rightarrow> iterations k rt be ag s messages' w'
      | Stop x w' \<Rightarrow> Stop x w')"

section \<open>The entry point\<close>

text \<open>
  The message handed to \<^verbatim>\<open>run_async\<close>: \<open>None\<close> when it has no \<^verbatim>\<open>"content"\<close> with
  \<^verbatim>\<open>"parts"\<close>, else the parts, each with or without a \<^verbatim>\<open>"text"\<close>.
\<close>

datatype part = Part (part_text: "string option")

type_synonym new_message = "part list option"

text \<open>The characters below 256 that \<^verbatim>\<open>str.strip()\<close> removes.\<close>

definition py_isspace :: "char \<Rightarrow> bool" where
  "py_isspace c =
     (let n = of_char c :: nat
      in (9 \<le> n \<and> n \<le> 13) \<or> (28 \<le> n \<and> n \<le> 32) \<or> n = 133 \<or> n = 160)"

definition strip :: "string \<Rightarrow> string" where
  "strip s = rev (dropWhile py_isspace (rev (dropWhile py_isspace s)))"

definition extract_text :: "new_message \<Rightarrow> string" where
  "extract_text nm =
     strip (case nm of
              None \<Rightarrow> []
            | Some ps \<Rightarrow>
                foldl (\<lambda>message_text p.
                         case part_text p of
                           Some t \<Rightarrow> message_text @ t @ '' ''
                         | None \<Rightarrow> message_text) [] ps)"

text \<open>The event that \<^verbatim>\<open>run_async\<close> yields, by the texts of its parts.\<close>

datatype response_event = ResponseEvent (parts: "string list")

definition run_async ::
    "runtime \<Rightarrow> backend \<Rightarrow> agent \<Rightarrow> string \<Rightarrow> string \<Rightarrow> new_message \<Rightarrow> world
       \<Rightarrow> (exn + response_event list) \<times> world" where
  "run_async rt be ag uid sid nm w =
     (let message_text = extract_text nm;
          s = Session sid uid (name ag);
          s = add_message s ''user'' (JStr message_text)
      in case process_message rt be ag (JStr message_text) s w of
           (Inl e, w') \<Rightarrow> (Inl e, w')
         | (Inr response_text, w') \<Rightarrow>
             (let s = add_message s ''assistant'' (JStr response_text)
              in (Inr [ResponseEvent [response_text]], w')))"

record runner =
  runner_agent :: agent
  runner_app_name :: string

definition runner_run_async ::
    "runtime \<Rightarrow> backend \<Rightarrow> runner \<Rightarrow> string \<Rightarrow> string \<Rightarrow> new_message \<Rightarrow> world
       \<Rightarrow> (exn + response_event list) \<times> world" where
  "runner_run_async rt be r uid sid nm w = run_async rt be (runner_agent r) uid sid nm w"

section \<open>The HTTP route\<close>

record agent_request =
  req_message :: string
  req_context_parts :: "string option list option"
  req_session_id :: "string option"

record agent_response =
  response :: string
  resp_session_id :: "string option"
  event_count :: nat

datatype http_exception = HTTPException nat string

fun py_join :: "string \<Rightarrow> string list \<Rightarrow> string" where
  "py_join sep [] = []"
| "py_join sep [x] = x"
| "py_join sep (x # y # ys) = x @ sep @ py_join sep (y # ys)"

text \<open>
  \<^verbatim>\<open>process_agent_request\<close>. \<open>fresh_id\<close> is the \<^verbatim>\<open>uuid4\<close> drawn for a request without a
  session id; \<open>memory_context\<close> is the context text of the vector store, empty when the
  store is off, fails or finds nothing.
\<close>

definition process_agent_request ::
    "runtime \<Rightarrow> backend \<Rightarrow> runner option \<Rightarrow> agent_request \<Rightarrow> string \<Rightarrow> string \<Rightarrow> world
       \<Rightarrow> (http_exception + agent_response) \<times> world" where
  "process_agent_request rt be arrow_runner request fresh_id memory_context w =
     (case arrow_runner of
        None \<Rightarrow> (Inl (HTTPException 503 ''Arrow backend not available''), w)
      | Some r \<Rightarrow>
          (let sid = (case req_session_id request of
                        None \<Rightarrow> fresh_id
                      | Some i \<Rightarrow> if i = [] then fresh_id else i);
               uid = ''default_user'';
               w1 = (case get_session (runner_app_name r) uid sid w of
                       Some s \<Rightarrow> w
                     | None \<Rightarrow> snd (create_session (runner_app_name r) uid sid w));
               message_parts =
                 [req_message request]
                   @ (case req_context_parts request of
                        None \<Rightarrow> []
                      | Some cs \<Rightarrow> map (\<lambda>c. case c of None \<Rightarrow> [] | Some t \<Rightarrow> t) cs);
               combined_message = py_join '' '' message_parts;
               combined_message = memory_context @ combined_message;
               nm = Some [Part (Some combined_message)]
           in case runner_run_async rt be r uid sid nm w1 of
                (Inl e, w2) \<Rightarrow> (Inl (HTTPException 500 (exn_str rt e)), w2)
              | (Inr events, w2) \<Rightarrow>
                  (let response_text = concat (concat (map parts events))
                   in (Inr \<lparr>response = (if response_text = [] then ''No response generated''
                                          else response_text),
                             resp_session_id = Some sid,
                             event_count = length events\<rparr>, w2))))"

section \<open>Bounds, renderings and inputs used in the statements\<close>

text \<open>
  A bound on the calls to the completion API of one run of an agent's loop: each of its
  at most \<open>max_iterations\<close> iterations makes one call and may delegate once, to the
  sub-agent with the largest bound.
\<close>

fun call_bound :: "agent \<Rightarrow> nat" where
  "call_bound (Agent n d i ts tm subs) =
     max_iterations * Suc (foldr max (map call_bound subs) 0)"

definition sub_bound :: "agent \<Rightarrow> nat" where
  "sub_bound ag = foldr max (map call_bound (sub_agents ag)) 0"


text \<open>
  A reply on which the iteration continues: it parses to an object with a \<^verbatim>\<open>"tool"\<close> key
  whose value can be hashed (a tool call), or to an object without a \<^verbatim>\<open>"tool"\<close> key and
  with an \<^verbatim>\<open>"agent"\<close> key (a delegation).
\<close>

definition continuing_reply :: "runtime \<Rightarrow> string \<Rightarrow> bool" where
  "continuing_reply rt r =
     (case loads rt r of
        Inr (JObj kvs) \<Rightarrow>
          (case map_of kvs ''tool'' of
             Some tn \<Rightarrow> hashable tn
           | None \<Rightarrow> map_of kvs ''agent'' \<noteq> None)
      | _ \<Rightarrow> False)"

text \<open>
  A reply after which the iteration continues without a call of a delegated loop: it parses
  to an object with a \<^verbatim>\<open>"tool"\<close> key whose value can be hashed, or to an object without a
  \<^verbatim>\<open>"tool"\<close> key and with an \<^verbatim>\<open>"agent"\<close> key whose value names no sub-agent.
\<close>

definition continues_locally :: "runtime \<Rightarrow> agent \<Rightarrow> string \<Rightarrow> bool" where
  "continues_locally rt ag r =
     (case loads rt r of
        Inr (JObj kvs) \<Rightarrow>
          (case map_of kvs ''tool'' of
             Some tn \<Rightarrow> hashable tn
           | None \<Rightarrow>
               (case map_of kvs ''agent'' of
                  Some an \<Rightarrow> find (\<lambda>a. JStr (name a) = an) (sub_agents ag) = None
                | None \<Rightarrow> False))
      | _ \<Rightarrow> False)"



text \<open>The state after one more call to the completion API with the given messages.\<close>

definition called :: "msg_dict list \<Rightarrow> world \<Rightarrow> world" where
  "called messages w = w\<lparr>calls := calls w @ [messages]\<rparr>"

text \<open>
  The state \<open>w'\<close> is the state \<open>w\<close> after at most \<open>n\<close> more calls to the completion API:
  the sessions are the same and the log of calls is extended.
\<close>

definition within :: "nat \<Rightarrow> world \<Rightarrow> world \<Rightarrow> bool" where
  "within n w w' =
     (sessions w' = sessions w \<and> (\<exists>cs. calls w' = calls w @ cs \<and> length cs \<le> n))"

text \<open>
  A tool name is registered when it is a string and a key of the registry; the text that
  \<^verbatim>\<open>_handle_tool_call\<close> returns for a name that is not.
\<close>

definition registered :: "agent \<Rightarrow> json \<Rightarrow> bool" where
  "registered ag tn = (case tn of JStr n \<Rightarrow> tools_map ag n \<noteq> None | _ \<Rightarrow> False)"

definition not_found_text :: "runtime \<Rightarrow> json \<Rightarrow> string" where
  "not_found_text rt tn = ''Error: Tool '' @ [CHR 0x27] @ py_str rt tn @ [CHR 0x27] @ '' not found''"

subsection \<open>Concrete inputs\<close>

text \<open>
  \<^verbatim>\<open>json.loads\<close> on the reply texts used below; every other text used below
  (\<^verbatim>\<open>x\<close>, \<^verbatim>\<open>ok\<close>, \<^verbatim>\<open>done\<close>, \<^verbatim>\<open>hi\<close>, \<^verbatim>\<open>hello\<close>, \<^verbatim>\<open>bullet list\<close>) is not accepted.
\<close>

definition ex_loads :: "string \<Rightarrow> exn + json" where
  \<open>ex_loads r =
     (if r = ''{"tool":"bogus"}'' then Inr (JObj [(''tool'', JStr ''bogus'')])
      else if r = ''{"tool":"echo","arguments":{"text":"hi"}}''
        then Inr (JObj [(''tool'', JStr ''echo''), (''arguments'', JObj [(''text'', JStr ''hi'')])])
      else if r = ''{"agent":"Summarizer","message":"summarize X"}''
        then Inr (JObj [(''agent'', JStr ''Summarizer''), (''message'', JStr ''summarize X'')])
      else if r = ''{"tool":"echo","agent":"Summarizer"}''
        then Inr (JObj [(''tool'', JStr ''echo''), (''agent'', JStr ''Summarizer'')])
      else if r = ''{"agent":"Nobody"}'' then Inr (JObj [(''agent'', JStr ''Nobody'')])
      else if r = ''42'' then Inr (JInt 42)
      else if r = ''NaN'' then Inr (JFloat ''nan'')
      else Inl (JSONDecodeError ''Expecting value: line 1 column 1 (char 0)''))\<close>

definition ex_rt :: runtime where
  "ex_rt = \<lparr>loads = ex_loads, str_of = (\<lambda>v. ''<value>''), exn_text = (\<lambda>e. ''<error>'')\<rparr>"

definition echo_tool :: tool where
  "echo_tool =
     Tool ''echo'' ''Repeats its text''
       (\<lambda>kwargs. case map_of kwargs ''text'' of
                    Some v \<Rightarrow> Inr v
                  | None \<Rightarrow> Inl (ToolError ''missing text''))"

definition failing_tool :: tool where
  "failing_tool = Tool ''echo'' ''Always fails'' (\<lambda>kwargs. Inl (ToolError ''disk full''))"

definition summarizer :: agent where
  "summarizer = GradientAgent ''Summarizer'' ''Summarizes text'' ''Crisp summarizer.'' [] []"

definition coordinator :: agent where
  "coordinator =
     GradientAgent ''Coordinator'' ''Routes commands'' ''Use tools.'' [echo_tool] [summarizer]"

definition plain_agent :: agent where
  "plain_agent = GradientAgent ''Plain'' ''No tools'' ''Answer.'' [] []"

definition w_empty :: world where
  "w_empty = \<lparr>sessions = Map.empty, calls = []\<rparr>"

definition s_new :: session where
  "s_new = Session ''s1'' ''default_user'' ''arrow''"

text \<open>Replies of the completion endpoint, by call number.\<close>

definition always_bogus_tool :: backend where
  \<open>always_bogus_tool n = Inr ''{"tool":"bogus"}''\<close>

definition bogus_then_done :: backend where
  \<open>bogus_then_done n = (if n = 0 then Inr ''{"tool":"bogus"}'' else Inr ''done'')\<close>

definition echo_then_hi :: backend where
  \<open>echo_then_hi n =
     (if n = 0 then Inr ''{"tool":"echo","arguments":{"text":"hi"}}'' else Inr ''hi'')\<close>

definition delegate_then_tools :: backend where
  \<open>delegate_then_tools n =
     (if n = 0 then Inr ''{"agent":"Summarizer","message":"summarize X"}''
      else if n = 1 then Inr ''x''
      else Inr ''{"tool":"bogus"}'')\<close>


definition replies_number :: backend where
  "replies_number n = Inr ''42''"

definition replies_hello :: backend where
  "replies_hello n = Inr ''hello''"

definition both_keys_then_done :: backend where
  \<open>both_keys_then_done n =
     (if n = 0 then Inr ''{"tool":"echo","agent":"Summarizer"}'' else Inr ''done'')\<close>

definition failing_agent :: agent where
  "failing_agent = GradientAgent ''Worker'' ''Has a broken tool'' ''Use tools.'' [failing_tool] []"


definition delegate_then_done :: backend where
  \<open>delegate_then_done n =
     (if n = 0 then Inr ''{"agent":"Summarizer","message":"summarize X"}''
      else if n = 1 then Inr ''bullet list''
      else Inr ''done'')\<close>

definition always_nobody :: backend where
  \<open>always_nobody n = Inr ''{"agent":"Nobody"}''\<close>

definition always_delegates :: backend where
  \<open>always_delegates n =
     (if even n then Inr ''{"agent":"Summarizer","message":"summarize X"}''
      else Inr ''bullet list'')\<close>







definition arrow_runner :: runner where
  "arrow_runner = \<lparr>runner_agent = coordinator, runner_app_name = ''arrow''\<rparr>"

definition hi_request :: agent_request where
  "hi_request = \<lparr>req_message = ''hi'', req_context_parts = None, req_session_id = Some ''s1''\<rparr>"

section \<open>Basic facts\<close>

lemma call_gradient_calls [simp]: "calls (snd (call_gradient be m w)) = calls w @ [m]"
  by (simp add: call_gradient_def split: sum.splits)

lemma call_gradient_sessions [simp]: "sessions (snd (call_gradient be m w)) = sessions w"
  by (simp add: call_gradient_def split: sum.splits)

lemma call_gradient_reply:
  "be (length (calls w)) = Inr r \<Longrightarrow> call_gradient be m w = (Inr r, called m w)"
  by (simp add: call_gradient_def called_def)

lemma call_gradient_failure:
  "be (length (calls w)) = Inl t \<Longrightarrow> call_gradient be m w = (Inl (BackendError t), called m w)"
  by (simp add: call_gradient_def called_def)


section \<open>The system prompt\<close>





section \<open>One iteration of the loop\<close>

lemma loop_reply:
  assumes "it < max_iterations" and "be (length (calls w)) = Inr r"
  shows "loop rt be ag s it messages w =
     (case loads rt r of
        Inl e \<Rightarrow>
          (if is_decode_error e then (Inr r, called messages w) else (Inl e, called messages w))
      | Inr response_data \<Rightarrow>
          (case py_contains rt ''tool'' response_data of
             Inl e \<Rightarrow> (Inl e, called messages w)
           | Inr True \<Rightarrow>
               (case tool_branch rt ag response_data of
                  Inl e \<Rightarrow> (Inl e, called messages w)
                | Inr tool_result \<Rightarrow>
                    loop rt be ag s (it + 1)
                      (messages @ [dict_msg ''assistant'' (JStr r),
                         dict_msg ''user'' (JStr (''Tool result: '' @ tool_result))])
                      (called messages w))
           | Inr False \<Rightarrow>
               (case py_contains rt ''agent'' response_data of
                  Inl e \<Rightarrow> (Inl e, called messages w)
                | Inr True \<Rightarrow>
                    (case agent_branch rt response_data of
                       Inl e \<Rightarrow> (Inl e, called messages w)
                     | Inr (aname, agent_message) \<Rightarrow>
                         (case handle_agent_delegation rt be ag aname agent_message s
                                 (called messages w) of
                            (Inl e, w2) \<Rightarrow> (Inl e, w2)
                          | (Inr agent_result, w2) \<Rightarrow>
                              loop rt be ag s (it + 1)
                                (messages @ [dict_msg ''assistant'' (JStr r),
                                   dict_msg ''user''
                                     (JStr (''Sub-agent result: '' @ agent_result))])
                                w2))
                | Inr False \<Rightarrow> (Inr r, called messages w))))"
  using assms by (subst loop.simps) (simp add: call_gradient_reply)

lemma loop_failure:
  assumes "it < max_iterations" and "be (length (calls w)) = Inl t"
  shows "loop rt be ag s it messages w = (Inl (BackendError t), called messages w)"
  using assms by (subst loop.simps) (simp add: call_gradient_failure)

lemma loop_exhausted:
  "\<not> it < max_iterations \<Longrightarrow>
     loop rt be ag s it messages w = (Inr ''Error: Maximum iterations reached'', w)"
  by (subst loop.simps) simp

lemma loop_not_json:
  assumes "it < max_iterations" and "be (length (calls w)) = Inr r" and "loads rt r = Inl (JSONDecodeError m)"
  shows "loop rt be ag s it messages w = (Inr r, called messages w)"
  using assms by (simp add: loop_reply is_decode_error_def)

lemma loop_loads_raises:
  assumes "it < max_iterations" and "be (length (calls w)) = Inr r" and "loads rt r = Inl e"
    and "\<not> is_decode_error e"
  shows "loop rt be ag s it messages w = (Inl e, called messages w)"
  using assms by (simp add: loop_reply)

lemma tool_envelope_contains:
  "map_of kvs ''tool'' = Some tn \<Longrightarrow> py_contains rt ''tool'' (JObj kvs) = Inr True"
  by (simp add: py_contains_def)

lemma loop_tool_envelope:
  assumes "it < max_iterations" and "be (length (calls w)) = Inr r"
    and "loads rt r = Inr (JObj kvs)" and "map_of kvs ''tool'' = Some tn"
  shows "loop rt be ag s it messages w =
     (case tool_branch rt ag (JObj kvs) of
        Inl e \<Rightarrow> (Inl e, called messages w)
      | Inr tool_result \<Rightarrow>
          loop rt be ag s (it + 1)
            (messages @ [dict_msg ''assistant'' (JStr r),
               dict_msg ''user'' (JStr (''Tool result: '' @ tool_result))])
            (called messages w))"
  using assms by (simp add: loop_reply py_contains_def)

lemma tool_branch_object:
  "map_of kvs ''tool'' = Some tn \<Longrightarrow>
     tool_branch rt ag (JObj kvs) =
       handle_tool_call rt ag tn (case map_of kvs ''arguments'' of Some a \<Rightarrow> a | None \<Rightarrow> JObj [])"
  by (simp add: tool_branch_def py_getitem_def py_get_def)

lemma handle_tool_call_hashable:
  "hashable tn \<Longrightarrow> \<exists>text. handle_tool_call rt ag tn args = Inr text"
  by (simp add: handle_tool_call_def split: option.splits sum.splits)

lemma handle_agent_delegation_text:
  "\<exists>text w'. handle_agent_delegation rt be ag aname msg s w = (Inr text, w')"
  by (subst handle_agent_delegation.simps) (auto split: option.splits sum.splits prod.splits)

lemma handle_agent_delegation_result:
  "handle_agent_delegation rt be ag aname msg s w = (Inl e, w') \<Longrightarrow> False"
  using handle_agent_delegation_text [of rt be ag aname msg s w] by auto

lemma loop_iteration:
  "loop rt be ag s it messages w =
     (if it < max_iterations then
        (case iteration rt be ag s messages w of
           Continue messages' w' \<Rightarrow> loop rt be ag s (it + 1) messages' w'
         | Stop x w' \<Rightarrow> (x, w'))
      else (Inr ''Error: Maximum iterations reached'', w))"
  by (subst loop.simps)
    (simp add: iteration_def split: prod.splits sum.splits bool.splits)

lemma loop_iterations:
  "loop rt be ag s it messages w =
     (case iterations (max_iterations - it) rt be ag s messages w of
        Continue messages' w' \<Rightarrow> (Inr ''Error: Maximum iterations reached'', w')
      | Stop x w' \<Rightarrow> (x, w'))"
proof (induction "max_iterations - it" arbitrary: it messages w)
  case 0
  then show ?case by (simp add: loop_exhausted)
next
  case (Suc k)
  then have lt: "it < max_iterations" and k: "k = max_iterations - (it + 1)"
    and d: "max_iterations - it = Suc k" by simp_all
  have ih: "loop rt be ag s (Suc it) ms w1 =
      (case iterations k rt be ag s ms w1 of
         Continue messages' w' \<Rightarrow> (Inr ''Error: Maximum iterations reached'', w')
       | Stop x w' \<Rightarrow> (x, w'))" for ms w1
    using Suc.hyps(1) [OF k, of ms w1] k by simp
  show ?case
    unfolding d
    by (subst loop_iteration) (simp add: lt ih split: step.splits)
qed

section \<open>The calls of a run\<close>

lemma call_bound_sub: "call_bound ag = max_iterations * Suc (sub_bound ag)"
  by (cases ag) (simp add: sub_bound_def)

lemma foldr_max_ge: "x \<in> set xs \<Longrightarrow> (x::nat) \<le> foldr max xs 0"
  by (induction xs) auto

lemma find_in_set: "find P xs = Some x \<Longrightarrow> x \<in> set xs"
  by (induction xs) (auto split: if_splits)

lemma find_sub_bound:
  "find P (sub_agents ag) = Some sub \<Longrightarrow> call_bound sub \<le> sub_bound ag"
proof -
  assume "find P (sub_agents ag) = Some sub"
  then have "sub \<in> set (sub_agents ag)"
    by (rule find_in_set)
  then show ?thesis
    unfolding sub_bound_def by (intro foldr_max_ge) simp
qed

lemma called_calls [simp]: "calls (called m w) = calls w @ [m]"
  by (simp add: called_def)

lemma called_sessions [simp]: "sessions (called m w) = sessions w"
  by (simp add: called_def)

lemma bound_step:
  assumes "it < max_iterations"
  shows "Suc (b + (max_iterations - (it + 1)) * Suc b) \<le> (max_iterations - it) * Suc b"
proof -
  from assms obtain k where k: "max_iterations - it = Suc k"
    by (metis Suc_diff_Suc)
  then have "max_iterations - (it + 1) = k" by simp
  with k show ?thesis by simp
qed

lemma within_refl: "within n w w"
  by (simp add: within_def)

lemma within_trans:
  "within a w w1 \<Longrightarrow> within b w1 w2 \<Longrightarrow> a + b \<le> c \<Longrightarrow> within c w w2"
  by (auto simp: within_def)

lemma within_mono: "within a w w' \<Longrightarrow> a \<le> b \<Longrightarrow> within b w w'"
  by (auto simp: within_def)

lemma within_length: "within n w w' \<Longrightarrow> length (calls w') \<le> length (calls w) + n"
  by (auto simp: within_def)

lemma within_called: "Suc 0 \<le> n \<Longrightarrow> within n w (called m w)"
  by (simp add: within_def)

lemma world_after:
  "within (call_bound ag) w (snd (process_message rt be ag msg s w))"
  "within ((max_iterations - it) * Suc (sub_bound ag)) w (snd (loop rt be ag s it messages w))"
  "within (sub_bound ag) w (snd (handle_agent_delegation rt be ag aname msg s w))"
proof (induction rt be ag msg s w and rt be ag s it messages w and rt be ag aname msg s w
    rule: process_message_loop_handle_agent_delegation.induct)
  case (1 rt be ag msg s w)
  then show ?case
    by (simp add: process_message.simps call_bound_sub)
next
  case (2 rt be ag s it messages w)
  let ?b = "sub_bound ag"
  let ?y = "called messages w"
  show ?case
  proof (cases "it < max_iterations")
    case False
    then show ?thesis by (simp add: loop_exhausted within_refl)
  next
    case lt: True
    note step = bound_step [OF lt, of ?b]
    have one: "within ((max_iterations - it) * Suc ?b) w ?y"
      using step by (intro within_called) simp
    have rest: "within (Suc 0) w ?y"
      by (simp add: within_called)
    show ?thesis
    proof (cases "be (length (calls w))")
      case (Inl t)
      with lt one show ?thesis by (simp add: loop_failure)
    next
      case (Inr r)
      have cg: "(Inr r, ?y) = call_gradient be messages w"
        using Inr by (simp add: call_gradient_reply)
      note unfold = loop_reply [where be = be and w = w and it = it, OF lt Inr]
      show ?thesis
      proof (cases "loads rt r")
        case (Inl e)
        with one show ?thesis by (simp add: unfold)
      next
        case ld: (Inr d)
        show ?thesis
        proof (cases "py_contains rt ''tool'' d")
          case (Inl e)
          with ld one show ?thesis by (simp add: unfold)
        next
          case pc: (Inr ba)
          show ?thesis
          proof (cases ba)
            case True
            then have bt: "ba = True" by simp
            show ?thesis
            proof (cases "tool_branch rt ag d")
              case (Inl e)
              with ld pc bt one show ?thesis by (simp add: unfold)
            next
              case tb: (Inr out)
              have "within ((max_iterations - (it + 1)) * Suc ?b) ?y
                      (snd (loop rt be ag s (it + 1)
                         (messages @ [dict_msg ''assistant'' (JStr r),
                            dict_msg ''user'' (JStr (''Tool result: '' @ out))]) ?y))"
                using "2.IH"(1) [OF lt cg refl ld pc bt tb] .
              from within_trans [OF rest this] step
              have "within ((max_iterations - it) * Suc ?b) w
                      (snd (loop rt be ag s (it + 1)
                         (messages @ [dict_msg ''assistant'' (JStr r),
                            dict_msg ''user'' (JStr (''Tool result: '' @ out))]) ?y))"
                by simp
              with ld pc bt tb show ?thesis by (simp add: unfold)
            qed
          next
            case False
            then have bf: "ba = False" by simp
            show ?thesis
            proof (cases "py_contains rt ''agent'' d")
              case (Inl e)
              with ld pc bf one show ?thesis by (simp add: unfold)
            next
              case pa: (Inr baa)
              show ?thesis
              proof (cases baa)
                case False
                with ld pc bf pa one show ?thesis by (simp add: unfold)
              next
                case True
                then have at: "baa = True" by simp
                show ?thesis
                proof (cases "agent_branch rt d")
                  case (Inl e)
                  with ld pc bf pa at one show ?thesis by (simp add: unfold)
                next
                  case ab: (Inr nm)
                  obtain aname amsg where nm: "(aname, amsg) = nm" by (cases nm) simp
                  obtain xb yb where had:
                    "(xb, yb) = handle_agent_delegation rt be ag aname amsg s ?y"
                    by (cases "handle_agent_delegation rt be ag aname amsg s ?y") simp
                  have d: "within ?b ?y yb"
                    using "2.IH"(2) [OF lt cg refl ld pc bf pa at ab nm] had [symmetric]
                    by simp
                  show ?thesis
                  proof (cases xb)
                    case (Inl e)
                    from within_trans [OF rest d] step
                    have "within ((max_iterations - it) * Suc ?b) w yb" by simp
                    with ld pc bf pa at ab nm [symmetric] had [symmetric] Inl
                    show ?thesis by (simp add: unfold)
                  next
                    case res: (Inr out)
                    have "within ((max_iterations - (it + 1)) * Suc ?b) yb
                            (snd (loop rt be ag s (it + 1)
                               (messages @ [dict_msg ''assistant'' (JStr r),
                                  dict_msg ''user'' (JStr (''Sub-agent result: '' @ out))]) yb))"
                      using "2.IH"(3) [OF lt cg refl ld pc bf pa at ab nm had res] .
                    from within_trans [OF within_trans [OF rest d order_refl] this] step
                    have "within ((max_iterations - it) * Suc ?b) w
                            (snd (loop rt be ag s (it + 1)
                               (messages @ [dict_msg ''assistant'' (JStr r),
                                  dict_msg ''user'' (JStr (''Sub-agent result: '' @ out))]) yb))"
                      by simp
                    with ld pc bf pa at ab nm [symmetric] had [symmetric] res
                    show ?thesis by (simp add: unfold)
                  qed
                qed
              qed
            qed
          qed
        qed
      qed
    qed
  qed
next
  case (3 rt be ag aname msg s w)
  show ?case
  proof (cases "find (\<lambda>a. JStr (name a) = aname) (sub_agents ag)")
    case None
    then show ?thesis by (subst handle_agent_delegation.simps) (simp add: within_refl)
  next
    case (Some sub)
    have "within (sub_bound ag) w (snd (process_message rt be sub msg s w))"
      using "3.IH" [OF Some] find_sub_bound [OF Some] by (rule within_mono)
    with Some show ?thesis
      by (subst handle_agent_delegation.simps) (auto split: prod.splits sum.splits)
  qed
qed

lemma loop_continues_locally:
  assumes "\<forall>i < max_iterations - it.
      \<exists>r. be (length (calls w) + i) = Inr r \<and> continues_locally rt ag r"
  shows "fst (loop rt be ag s it messages w) = Inr ''Error: Maximum iterations reached''
       \<and> length (calls (snd (loop rt be ag s it messages w)))
           = length (calls w) + (max_iterations - it)"
  using assms
proof (induction "max_iterations - it" arbitrary: it messages w)
  case 0
  then show ?case by (simp add: loop_exhausted)
next
  case (Suc k)
  then have lt: "it < max_iterations" and k: "k = max_iterations - (it + 1)" by simp_all
  from Suc.prems Suc.hyps(2) obtain r where r: "be (length (calls w)) = Inr r"
    and env: "continues_locally rt ag r"
    by (metis add.right_neutral zero_less_Suc)
  have "\<exists>ms. loop rt be ag s it messages w = loop rt be ag s (it + 1) ms (called messages w)"
  proof -
    from env obtain kvs where l: "loads rt r = Inr (JObj kvs)"
      by (auto simp: continues_locally_def split: sum.splits json.splits)
    show ?thesis
    proof (cases "map_of kvs ''tool''")
      case (Some tn)
      with env l have h: "hashable tn"
        by (simp add: continues_locally_def)
      from handle_tool_call_hashable [OF h] tool_branch_object [OF Some]
      obtain out where "tool_branch rt ag (JObj kvs) = Inr out" by metis
      with loop_tool_envelope [where be = be and w = w, OF lt r l Some]
      have "loop rt be ag s it messages w =
          loop rt be ag s (it + 1)
            (messages @ [dict_msg ''assistant'' (JStr r),
               dict_msg ''user'' (JStr (''Tool result: '' @ out))])
            (called messages w)"
        by simp
      then show ?thesis ..
    next
      case None
      with env l obtain an where an: "map_of kvs ''agent'' = Some an"
        and nf: "find (\<lambda>a. JStr (name a) = an) (sub_agents ag) = None"
        by (auto simp: continues_locally_def split: option.splits)
      have "handle_agent_delegation rt be ag an m s (called messages w)
          = (Inr (''Error: Sub-agent '' @ [CHR 0x27] @ py_str rt an @ [CHR 0x27] @ '' not found''),
             called messages w)" for m
        using nf by (subst handle_agent_delegation.simps) simp
      with None an l have "loop rt be ag s it messages w =
          loop rt be ag s (it + 1)
            (messages @ [dict_msg ''assistant'' (JStr r),
               dict_msg ''user''
                 (JStr (''Sub-agent result: '' @ ''Error: Sub-agent '' @ [CHR 0x27]
                    @ py_str rt an @ [CHR 0x27] @ '' not found''))])
            (called messages w)"
        by (simp add: loop_reply [where be = be and w = w, OF lt r] py_contains_def
            agent_branch_def py_getitem_def py_get_def)
      then show ?thesis ..
    qed
  qed
  then obtain ms where eq:
    "loop rt be ag s it messages w = loop rt be ag s (it + 1) ms (called messages w)" ..
  have "\<forall>i < max_iterations - (it + 1).
          \<exists>r. be (length (calls (called messages w)) + i) = Inr r \<and> continues_locally rt ag r"
  proof (intro allI impI)
    fix i assume "i < max_iterations - (it + 1)"
    then have "Suc i < max_iterations - it" by simp
    with Suc.prems show "\<exists>r. be (length (calls (called messages w)) + i) = Inr r
        \<and> continues_locally rt ag r"
      by (metis add_Suc_right add_Suc called_calls length_append_singleton)
  qed
  from Suc.hyps(1) [OF k this] lt show ?case
    by (simp add: eq)
qed

lemma iteration_within:
  "iteration rt be ag s messages w = Continue ms' w' \<Longrightarrow>
     \<exists>cs. calls w' = calls w @ messages # cs"
  "iteration rt be ag s messages w = Stop x w' \<Longrightarrow>
     \<exists>cs. calls w' = calls w @ messages # cs"
proof -
  have d: "\<exists>cs. calls w2 = calls w1 @ cs"
    if "handle_agent_delegation rt be ag an m s w1 = (x, w2)" for an m x w1 w2
    using that world_after(3) [of ag w1 rt be an m s] by (auto simp: within_def)
  show "iteration rt be ag s messages w = Continue ms' w' \<Longrightarrow>
     \<exists>cs. calls w' = calls w @ messages # cs"
    by (cases "call_gradient be messages w")
      (use call_gradient_calls [of be messages w] in
        \<open>auto simp: iteration_def split: sum.splits bool.splits prod.splits if_splits
          dest: d\<close>)
  show "iteration rt be ag s messages w = Stop x w' \<Longrightarrow>
     \<exists>cs. calls w' = calls w @ messages # cs"
    by (cases "call_gradient be messages w")
      (use call_gradient_calls [of be messages w] in
        \<open>auto simp: iteration_def split: sum.splits bool.splits prod.splits if_splits
          dest: d\<close>)
qed

lemma iterations_continue_calls:
  "iterations k rt be ag s messages w = Continue ms' w' \<Longrightarrow>
     length (calls w) + k \<le> length (calls w')"
proof (induction k arbitrary: messages w)
  case 0
  then show ?case by simp
next
  case (Suc k)
  then obtain ms1 w1 where i: "iteration rt be ag s messages w = Continue ms1 w1"
    and r: "iterations k rt be ag s ms1 w1 = Continue ms' w'"
    by (auto split: step.splits)
  from iteration_within(1) [OF i] have "Suc (length (calls w)) \<le> length (calls w1)"
    by auto
  with Suc.IH [OF r] show ?case by simp
qed

section \<open>Evaluation of concrete runs\<close>

lemmas run_simps = process_message.simps loop.simps handle_agent_delegation.simps
  call_gradient_def seed_messages_def get_messages_dict_def max_iterations_def
  py_contains_def py_getitem_def py_get_def tool_branch_def agent_branch_def
  handle_tool_call_def hashable_def py_str_def exn_str_def GradientAgent_def execute_def
  is_decode_error_def
  ex_rt_def ex_loads_def called_def

lemmas ex_simps = coordinator_def summarizer_def plain_agent_def echo_tool_def
  s_new_def Session_def w_empty_def

section \<open>The iteration cap\<close>

text \<open>An iteration continues exactly on the replies that \<open>continuing_reply\<close> describes.\<close>

lemma iteration_continues_iff:
  "(\<exists>ms' w'. iteration rt be ag s messages w = Continue ms' w')
     \<longleftrightarrow> (\<exists>r. be (length (calls w)) = Inr r \<and> continuing_reply rt r)"
proof (cases "be (length (calls w))")
  case (Inl t)
  then show ?thesis
    by (simp add: iteration_def call_gradient_failure)
next
  case (Inr r)
  have deleg: "\<exists>out w2. handle_agent_delegation rt be ag an m s (called messages w) = (Inr out, w2)"
    for an m
    by (rule handle_agent_delegation_text)
  show ?thesis
  proof (cases "loads rt r")
    case (Inl e)
    with Inr show ?thesis
      by (simp add: iteration_def call_gradient_reply continuing_reply_def)
  next
    case l: (Inr d)
    show ?thesis
    proof (cases d)
      case (JObj kvs)
      show ?thesis
      proof (cases "map_of kvs ''tool''")
        case (Some tn)
        show ?thesis
        proof (cases "hashable tn")
          case True
          from handle_tool_call_hashable [OF True] tool_branch_object [OF Some]
          obtain out where "tool_branch rt ag (JObj kvs) = Inr out" by metis
          with Inr l JObj Some True show ?thesis
            by (simp add: iteration_def call_gradient_reply continuing_reply_def py_contains_def)
        next
          case False
          then have "tool_branch rt ag (JObj kvs) = Inl (TypeError OpHash tn)"
            by (simp add: tool_branch_object [OF Some] handle_tool_call_def)
          with Inr l JObj Some False show ?thesis
            by (simp add: iteration_def call_gradient_reply continuing_reply_def py_contains_def)
        qed
      next
        case None
        show ?thesis
        proof (cases "map_of kvs ''agent''")
          case na: None
          with Inr l JObj None show ?thesis
            by (simp add: iteration_def call_gradient_reply continuing_reply_def py_contains_def)
        next
          case (Some an)
          from deleg [of an "case map_of kvs ''message'' of None \<Rightarrow> JStr [] | Some m \<Rightarrow> m"]
          obtain out w2 where "handle_agent_delegation rt be ag an
              (case map_of kvs ''message'' of None \<Rightarrow> JStr [] | Some m \<Rightarrow> m) s
              (called messages w) = (Inr out, w2)"
            by blast
          with Inr l JObj None Some show ?thesis
            by (simp add: iteration_def call_gradient_reply continuing_reply_def py_contains_def
                agent_branch_def py_getitem_def py_get_def)
        qed
      qed
    qed (use Inr l in \<open>auto simp: iteration_def call_gradient_reply continuing_reply_def
          py_contains_def tool_branch_def agent_branch_def py_getitem_def
          split: sum.splits bool.splits\<close>)
  qed
qed

text \<open>
  C1, as the code has it. A run of an agent's loop makes at most \<open>call_bound\<close> calls to the
  completion API: at most \<open>max_iterations\<close> when the agent has no sub-agents, and with
  sub-agents the calls of the delegated loops in addition. When all \<open>max_iterations\<close>
  iterations of the loop continue (each on a tool call or a delegation), the run returns the
  fixed error text, after at least \<open>max_iterations\<close> calls; and after exactly
  \<open>max_iterations\<close> calls when \<open>max_iterations\<close> replies in a row continue without
  running a delegated loop.
\<close>

theorem loop_calls_bounded:
  "length (calls (snd (process_message rt be ag msg s w))) \<le> length (calls w) + call_bound ag
   \<and> (sub_agents ag = [] \<longrightarrow>
        length (calls (snd (process_message rt be ag msg s w)))
          \<le> length (calls w) + max_iterations)
   \<and> (iterations max_iterations rt be ag s (seed_messages ag msg s) w = Continue ms' w' \<longrightarrow>
        process_message rt be ag msg s w = (Inr ''Error: Maximum iterations reached'', w')
        \<and> length (calls w) + max_iterations \<le> length (calls w'))
   \<and> ((\<forall>i < max_iterations.
          \<exists>r. be (length (calls w) + i) = Inr r \<and> continues_locally rt ag r)
        \<longrightarrow> fst (process_message rt be ag msg s w) = Inr ''Error: Maximum iterations reached''
          \<and> length (calls (snd (process_message rt be ag msg s w)))
              = length (calls w) + max_iterations)"
proof (intro conjI impI)
  have b: "within (call_bound ag) w (snd (process_message rt be ag msg s w))"
    by (rule world_after)
  then show "length (calls (snd (process_message rt be ag msg s w)))
      \<le> length (calls w) + call_bound ag"
    by (rule within_length)
  assume "sub_agents ag = []"
  then have "call_bound ag = max_iterations"
    by (simp add: call_bound_sub sub_bound_def)
  with within_length [OF b]
  show "length (calls (snd (process_message rt be ag msg s w)))
      \<le> length (calls w) + max_iterations"
    by simp
next
  assume c: "iterations max_iterations rt be ag s (seed_messages ag msg s) w = Continue ms' w'"
  then show "process_message rt be ag msg s w = (Inr ''Error: Maximum iterations reached'', w')"
    by (simp add: process_message.simps loop_iterations)
  from c show "length (calls w) + max_iterations \<le> length (calls w')"
    by (rule iterations_continue_calls)
next
  assume "\<forall>i < max_iterations.
      \<exists>r. be (length (calls w) + i) = Inr r \<and> continues_locally rt ag r"
  then have *: "\<forall>i < max_iterations - 0.
      \<exists>r. be (length (calls w) + i) = Inr r \<and> continues_locally rt ag r"
    by simp
  from loop_continues_locally [OF *, of s "seed_messages ag msg s"]
  show "fst (process_message rt be ag msg s w) = Inr ''Error: Maximum iterations reached''"
    and "length (calls (snd (process_message rt be ag msg s w)))
              = length (calls w) + max_iterations"
    by (simp_all add: process_message.simps)
qed

text \<open>
  An agent without sub-agents whose endpoint always asks for an unknown tool, or always
  for an unknown sub-agent: ten calls. An agent whose endpoint always delegates to its
  sub-agent, which answers at once: all ten iterations continue, after twenty calls.
\<close>

theorem loop_calls_bounded_witness:
  "sub_agents plain_agent = [] \<and> call_bound plain_agent = 10
   \<and> fst (process_message ex_rt always_bogus_tool plain_agent (JStr ''hi'') s_new w_empty)
       = Inr ''Error: Maximum iterations reached''
   \<and> length (calls (snd (process_message ex_rt always_bogus_tool plain_agent (JStr ''hi'')
         s_new w_empty))) = 10
   \<and> fst (process_message ex_rt always_nobody plain_agent (JStr ''hi'') s_new w_empty)
       = Inr ''Error: Maximum iterations reached''
   \<and> length (calls (snd (process_message ex_rt always_nobody plain_agent (JStr ''hi'')
         s_new w_empty))) = 10
   \<and> fst (process_message ex_rt always_delegates coordinator (JStr ''hi'') s_new w_empty)
       = Inr ''Error: Maximum iterations reached''
   \<and> length (calls (snd (process_message ex_rt always_delegates coordinator (JStr ''hi'')
         s_new w_empty))) = 20"
proof -
  have h: "\<forall>i < max_iterations.
      \<exists>r. always_bogus_tool (length (calls w_empty) + i) = Inr r
        \<and> continues_locally ex_rt plain_agent r"
    by (simp add: always_bogus_tool_def continues_locally_def ex_rt_def ex_loads_def
        hashable_def)
  have n: "\<forall>i < max_iterations.
      \<exists>r. always_nobody (length (calls w_empty) + i) = Inr r
        \<and> continues_locally ex_rt plain_agent r"
    by (simp add: always_nobody_def continues_locally_def ex_rt_def ex_loads_def
        plain_agent_def GradientAgent_def)
  have ten: "max_iterations = Suc (Suc (Suc (Suc (Suc (Suc (Suc (Suc (Suc (Suc 0)))))))))"
    by (simp add: max_iterations_def)
  have "\<exists>ms' w'. iterations max_iterations ex_rt always_delegates coordinator s_new
      (seed_messages coordinator (JStr ''hi'') s_new) w_empty = Continue ms' w'
      \<and> length (calls w') = 20"
    unfolding ten
    by (simp add: run_simps ex_simps iteration_def always_delegates_def)
  then obtain ms' w' where c: "iterations max_iterations ex_rt always_delegates coordinator
      s_new (seed_messages coordinator (JStr ''hi'') s_new) w_empty = Continue ms' w'"
    and len: "length (calls w') = 20"
    by blast
  from loop_calls_bounded [of ex_rt always_delegates coordinator "JStr ''hi''" s_new w_empty
      ms' w'] c len
  have d: "fst (process_message ex_rt always_delegates coordinator (JStr ''hi'') s_new w_empty)
       = Inr ''Error: Maximum iterations reached''"
    "length (calls (snd (process_message ex_rt always_delegates coordinator (JStr ''hi'')
         s_new w_empty))) = 20"
    by simp_all
  from loop_calls_bounded [of ex_rt always_bogus_tool plain_agent "JStr ''hi''" s_new w_empty] h
    loop_calls_bounded [of ex_rt always_nobody plain_agent "JStr ''hi''" s_new w_empty] n d
  show ?thesis
    by (simp add: plain_agent_def GradientAgent_def w_empty_def max_iterations_def)
qed

text \<open>
  C1 as stated fails: the coordinator delegates once to its sub-agent, whose loop makes a call
  of its own, and then exhausts its ten iterations: eleven calls in one run.
\<close>

theorem delegation_exceeds_ten_calls:
  "fst (process_message ex_rt delegate_then_tools coordinator (JStr ''hi'') s_new w_empty)
     = Inr ''Error: Maximum iterations reached''
   \<and> length (calls (snd (process_message ex_rt delegate_then_tools coordinator (JStr ''hi'')
         s_new w_empty))) = 11
   \<and> max_iterations = 10"
  by (simp add: run_simps delegate_then_tools_def ex_simps)

section \<open>Replies that are not JSON\<close>




section \<open>Replies that are JSON but no object\<close>

text \<open>
  C5 fails on the code: the reply \<^verbatim>\<open>42\<close> parses to a number, \<^verbatim>\<open>"tool" in 42\<close> raises a
  \<^verbatim>\<open>TypeError\<close>, and the loop catches \<^verbatim>\<open>json.JSONDecodeError\<close> only, so the run raises.
\<close>

theorem number_reply_raises:
  "fst (process_message ex_rt replies_number plain_agent (JStr ''hi'') s_new w_empty)
     = Inl (TypeError OpContains (JInt 42))"
  by (simp add: run_simps replies_number_def ex_simps)

section \<open>Tools that are not registered\<close>

lemma handle_tool_call_unregistered:
  "hashable tn \<Longrightarrow> \<not> registered ag tn \<Longrightarrow>
     handle_tool_call rt ag tn arguments = Inr (not_found_text rt tn)"
  by (auto simp: handle_tool_call_def registered_def not_found_text_def split: json.splits)

text \<open>
  C7. A reply that is an object whose \<^verbatim>\<open>"tool"\<close> value is a string (or any other hashable
  value) that is not a registered tool name raises nothing: the tool result is the not-found
  text, the raw reply and the synthetic user message are appended to the working list, and
  the loop goes on with the next iteration after this one call.
\<close>

theorem unknown_tool_is_reported:
  assumes "it < max_iterations" and "be (length (calls w)) = Inr r"
    and "loads rt r = Inr (JObj kvs)" and "map_of kvs ''tool'' = Some tn"
    and "hashable tn" and "\<not> registered ag tn"
  shows "tool_branch rt ag (JObj kvs) = Inr (not_found_text rt tn)
       \<and> loop rt be ag s it messages w =
           loop rt be ag s (it + 1)
             (messages @ [dict_msg ''assistant'' (JStr r),
                dict_msg ''user'' (JStr (''Tool result: '' @ not_found_text rt tn))])
             (called messages w)"
proof -
  have tb: "tool_branch rt ag (JObj kvs) = Inr (not_found_text rt tn)"
    using assms(4-6) by (simp add: tool_branch_object handle_tool_call_unregistered)
  with loop_tool_envelope [where be = be and w = w, OF assms(1-4)] show ?thesis
    by simp
qed

text \<open>The reply \<^verbatim>\<open>{"tool":"bogus"}\<close> followed by \<^verbatim>\<open>done\<close>: two calls, the answer \<^verbatim>\<open>done\<close>.\<close>

theorem unknown_tool_is_reported_witness:
  \<open>not_found_text ex_rt (JStr ''bogus'') = ''Error: Tool 'bogus' not found''
   \<and> fst (process_message ex_rt bogus_then_done coordinator (JStr ''hi'') s_new w_empty)
       = Inr ''done''
   \<and> calls (snd (process_message ex_rt bogus_then_done coordinator (JStr ''hi'') s_new w_empty))
       = [seed_messages coordinator (JStr ''hi'') s_new,
          seed_messages coordinator (JStr ''hi'') s_new
            @ [dict_msg ''assistant'' (JStr ''{"tool":"bogus"}''),
               dict_msg ''user'' (JStr ''Tool result: Error: Tool 'bogus' not found'')]]\<close>
proof -
  have r: \<open>registered coordinator (JStr ''bogus'') = False\<close>
    by (simp add: registered_def GradientAgent_def coordinator_def echo_tool_def)
  have l: \<open>loads ex_rt ''{"tool":"bogus"}'' = Inr (JObj [(''tool'', JStr ''bogus'')])\<close>
    by (simp add: ex_rt_def ex_loads_def)
  have n: \<open>not_found_text ex_rt (JStr ''bogus'') = ''Error: Tool 'bogus' not found''\<close>
    by (simp add: not_found_text_def py_str_def)
  from unknown_tool_is_reported [where be = bogus_then_done and w = w_empty and it = 0
      and rt = ex_rt and ag = coordinator and tn = "JStr ''bogus''" and s = s_new
      and messages = "seed_messages coordinator (JStr ''hi'') s_new", OF _ _ l]
  have \<open>loop ex_rt bogus_then_done coordinator s_new 0
          (seed_messages coordinator (JStr ''hi'') s_new) w_empty =
        loop ex_rt bogus_then_done coordinator s_new 1
          (seed_messages coordinator (JStr ''hi'') s_new
            @ [dict_msg ''assistant'' (JStr ''{"tool":"bogus"}''),
               dict_msg ''user'' (JStr ''Tool result: Error: Tool 'bogus' not found'')])
          (called (seed_messages coordinator (JStr ''hi'') s_new) w_empty)\<close>
    by (simp add: r n max_iterations_def bogus_then_done_def w_empty_def hashable_def)
  moreover have \<open>loop ex_rt bogus_then_done coordinator s_new 1
          (seed_messages coordinator (JStr ''hi'') s_new
            @ [dict_msg ''assistant'' (JStr ''{"tool":"bogus"}''),
               dict_msg ''user'' (JStr ''Tool result: Error: Tool 'bogus' not found'')])
          (called (seed_messages coordinator (JStr ''hi'') s_new) w_empty)
      = (Inr ''done'', called (seed_messages coordinator (JStr ''hi'') s_new
            @ [dict_msg ''assistant'' (JStr ''{"tool":"bogus"}''),
               dict_msg ''user'' (JStr ''Tool result: Error: Tool 'bogus' not found'')])
          (called (seed_messages coordinator (JStr ''hi'') s_new) w_empty))\<close>
    by (rule loop_not_json [where m = "''Expecting value: line 1 column 1 (char 0)''"])
      (simp_all add: max_iterations_def bogus_then_done_def w_empty_def ex_rt_def ex_loads_def)
  ultimately show ?thesis
    by (simp add: n process_message.simps w_empty_def called_def)
qed

section \<open>Tools that raise\<close>

text \<open>
  C8 as stated fails: \<^verbatim>\<open>Tool.execute\<close> has no handler, so an exception of the tool's function
  reaches the caller of \<^verbatim>\<open>execute\<close>.
\<close>

theorem execute_propagates_exception:
  "execute failing_tool [(''text'', JStr ''hi'')] = Inl (ToolError ''disk full'')"
  by (simp add: execute_def failing_tool_def)

text \<open>
  C8, as the code has it. The caller of \<^verbatim>\<open>execute\<close>, \<^verbatim>\<open>_handle_tool_call\<close>, catches the
  exception: for a registered tool it always returns a text, the text
  \<open>Error executing tool: \<close> followed by the exception's text when the tool raises, and
  the loop appends it as the tool result and goes on with the next iteration.
\<close>

theorem tool_exception_becomes_text:
  assumes "tools_map ag n = Some t"
  shows "(\<exists>out. handle_tool_call rt ag (JStr n) arguments = Inr out)
       \<and> (execute t kwargs = Inl e \<longrightarrow>
            handle_tool_call rt ag (JStr n) (JObj kwargs)
              = Inr (''Error executing tool: '' @ exn_str rt e))
       \<and> (execute t kwargs = Inl e \<longrightarrow> it < max_iterations \<longrightarrow>
            be (length (calls w)) = Inr r \<longrightarrow> loads rt r = Inr (JObj kvs) \<longrightarrow>
            map_of kvs ''tool'' = Some (JStr n) \<longrightarrow>
            map_of kvs ''arguments'' = Some (JObj kwargs) \<longrightarrow>
            loop rt be ag s it messages w =
              loop rt be ag s (it + 1)
                (messages @ [dict_msg ''assistant'' (JStr r),
                   dict_msg ''user''
                     (JStr (''Tool result: Error executing tool: '' @ exn_str rt e))])
                (called messages w))"
proof (intro conjI impI)
  show "\<exists>out. handle_tool_call rt ag (JStr n) arguments = Inr out"
    by (rule handle_tool_call_hashable) (simp add: hashable_def)
next
  assume "execute t kwargs = Inl e"
  with assms show "handle_tool_call rt ag (JStr n) (JObj kwargs)
      = Inr (''Error executing tool: '' @ exn_str rt e)"
    by (simp add: handle_tool_call_def hashable_def)
next
  assume e: "execute t kwargs = Inl e" and lt: "it < max_iterations"
    and r: "be (length (calls w)) = Inr r" and l: "loads rt r = Inr (JObj kvs)"
    and tn: "map_of kvs ''tool'' = Some (JStr n)"
    and ar: "map_of kvs ''arguments'' = Some (JObj kwargs)"
  have "tool_branch rt ag (JObj kvs) = Inr (''Error executing tool: '' @ exn_str rt e)"
    using assms e ar by (simp add: tool_branch_object [OF tn] handle_tool_call_def hashable_def)
  with loop_tool_envelope [where be = be and w = w, OF lt r l tn]
  show "loop rt be ag s it messages w =
              loop rt be ag s (it + 1)
                (messages @ [dict_msg ''assistant'' (JStr r),
                   dict_msg ''user''
                     (JStr (''Tool result: Error executing tool: '' @ exn_str rt e))])
                (called messages w)"
    by simp
qed

text \<open>A registered tool that always raises, called with \<^verbatim>\<open>{"text": "hi"}\<close>.\<close>

theorem tool_exception_becomes_text_witness:
  \<open>tools_map failing_agent ''echo'' = Some failing_tool
   \<and> handle_tool_call ex_rt failing_agent (JStr ''echo'') (JObj [(''text'', JStr ''hi'')])
       = Inr ''Error executing tool: disk full''
   \<and> loop ex_rt echo_then_hi failing_agent s_new 0 [] w_empty =
       loop ex_rt echo_then_hi failing_agent s_new 1
         [dict_msg ''assistant'' (JStr ''{"tool":"echo","arguments":{"text":"hi"}}''),
          dict_msg ''user'' (JStr ''Tool result: Error executing tool: disk full'')]
         (called [] w_empty)\<close>
proof -
  have t: "tools_map failing_agent ''echo'' = Some failing_tool"
    by (simp add: GradientAgent_def failing_agent_def failing_tool_def)
  have e: "execute failing_tool [(''text'', JStr ''hi'')] = Inl (ToolError ''disk full'')"
    by (simp add: execute_def failing_tool_def)
  have l: \<open>loads ex_rt ''{"tool":"echo","arguments":{"text":"hi"}}''
      = Inr (JObj [(''tool'', JStr ''echo''), (''arguments'', JObj [(''text'', JStr ''hi'')])])\<close>
    by (simp add: ex_rt_def ex_loads_def)
  from tool_exception_becomes_text [OF t, where rt = ex_rt and e = "ToolError ''disk full''"
      and kwargs = "[(''text'', JStr ''hi'')]" and it = 0 and be = echo_then_hi and w = w_empty
      and kvs = "[(''tool'', JStr ''echo''), (''arguments'', JObj [(''text'', JStr ''hi'')])]"
      and s = s_new and messages = "[]"] t e l
  show ?thesis
    by (simp add: exn_str_def max_iterations_def echo_then_hi_def w_empty_def)
qed

section \<open>Objects with both keys\<close>

text \<open>
  C10. A reply that parses to an object with a \<^verbatim>\<open>"tool"\<close> key is handled as a tool call,
  whether or not it also has an \<^verbatim>\<open>"agent"\<close> key: the iteration is the call of
  \<^verbatim>\<open>_handle_tool_call\<close> and nothing of the delegation. The delegation is run only for
  an object without a \<^verbatim>\<open>"tool"\<close> key and with an \<^verbatim>\<open>"agent"\<close> key.
\<close>

theorem tool_key_takes_precedence:
  assumes "it < max_iterations" and "be (length (calls w)) = Inr r"
    and "loads rt r = Inr (JObj kvs)"
  shows "(map_of kvs ''tool'' = Some tn \<longrightarrow>
            loop rt be ag s it messages w =
              (case handle_tool_call rt ag tn
                      (case map_of kvs ''arguments'' of Some a \<Rightarrow> a | None \<Rightarrow> JObj []) of
                 Inl e \<Rightarrow> (Inl e, called messages w)
               | Inr tool_result \<Rightarrow>
                   loop rt be ag s (it + 1)
                     (messages @ [dict_msg ''assistant'' (JStr r),
                        dict_msg ''user'' (JStr (''Tool result: '' @ tool_result))])
                     (called messages w)))
       \<and> (map_of kvs ''tool'' = None \<longrightarrow> map_of kvs ''agent'' = Some an \<longrightarrow>
            loop rt be ag s it messages w =
              (case handle_agent_delegation rt be ag an
                      (case map_of kvs ''message'' of Some m \<Rightarrow> m | None \<Rightarrow> JStr [])
                      s (called messages w) of
                 (Inl e, w2) \<Rightarrow> (Inl e, w2)
               | (Inr agent_result, w2) \<Rightarrow>
                   loop rt be ag s (it + 1)
                     (messages @ [dict_msg ''assistant'' (JStr r),
                        dict_msg ''user'' (JStr (''Sub-agent result: '' @ agent_result))])
                     w2))"
proof (intro conjI impI)
  assume tn: "map_of kvs ''tool'' = Some tn"
  show "loop rt be ag s it messages w =
              (case handle_tool_call rt ag tn
                      (case map_of kvs ''arguments'' of Some a \<Rightarrow> a | None \<Rightarrow> JObj []) of
                 Inl e \<Rightarrow> (Inl e, called messages w)
               | Inr tool_result \<Rightarrow>
                   loop rt be ag s (it + 1)
                     (messages @ [dict_msg ''assistant'' (JStr r),
                        dict_msg ''user'' (JStr (''Tool result: '' @ tool_result))])
                     (called messages w))"
    by (simp add: loop_tool_envelope [where be = be and w = w, OF assms tn]
        tool_branch_object [OF tn])
next
  assume "map_of kvs ''tool'' = None" and "map_of kvs ''agent'' = Some an"
  then show "loop rt be ag s it messages w =
              (case handle_agent_delegation rt be ag an
                      (case map_of kvs ''message'' of Some m \<Rightarrow> m | None \<Rightarrow> JStr [])
                      s (called messages w) of
                 (Inl e, w2) \<Rightarrow> (Inl e, w2)
               | (Inr agent_result, w2) \<Rightarrow>
                   loop rt be ag s (it + 1)
                     (messages @ [dict_msg ''assistant'' (JStr r),
                        dict_msg ''user'' (JStr (''Sub-agent result: '' @ agent_result))])
                     w2)"
    using assms
    by (simp add: loop_reply [where be = be and w = w] py_contains_def agent_branch_def
        py_getitem_def py_get_def)
qed

text \<open>
  An object with both keys, for an agent that has the tool and the sub-agent: the tool is
  called (without its argument, so it raises) and the sub-agent's loop is not run. An object
  with the \<^verbatim>\<open>"agent"\<close> key only: the sub-agent's loop makes the second call.
\<close>

theorem tool_key_takes_precedence_witness:
  \<open>loads ex_rt ''{"tool":"echo","agent":"Summarizer"}''
     = Inr (JObj [(''tool'', JStr ''echo''), (''agent'', JStr ''Summarizer'')])
   \<and> fst (process_message ex_rt both_keys_then_done coordinator (JStr ''hi'') s_new w_empty)
       = Inr ''done''
   \<and> calls (snd (process_message ex_rt both_keys_then_done coordinator (JStr ''hi'') s_new
         w_empty))
       = [seed_messages coordinator (JStr ''hi'') s_new,
          seed_messages coordinator (JStr ''hi'') s_new
            @ [dict_msg ''assistant'' (JStr ''{"tool":"echo","agent":"Summarizer"}''),
               dict_msg ''user'' (JStr ''Tool result: Error executing tool: missing text'')]]
   \<and> fst (process_message ex_rt delegate_then_done coordinator (JStr ''hi'') s_new w_empty)
       = Inr ''done''
   \<and> calls (snd (process_message ex_rt delegate_then_done coordinator (JStr ''hi'') s_new
         w_empty))
       = [seed_messages coordinator (JStr ''hi'') s_new,
          seed_messages summarizer (JStr ''summarize X'') s_new,
          seed_messages coordinator (JStr ''hi'') s_new
            @ [dict_msg ''assistant'' (JStr ''{"agent":"Summarizer","message":"summarize X"}''),
               dict_msg ''user'' (JStr ''Sub-agent result: bullet list'')]]\<close>
  using
    tool_key_takes_precedence [where it = 0 and be = both_keys_then_done and w = w_empty
      and rt = ex_rt and ag = coordinator and s = s_new and tn = "JStr ''echo''"
      and kvs = "[(''tool'', JStr ''echo''), (''agent'', JStr ''Summarizer'')]"
      and messages = "seed_messages coordinator (JStr ''hi'') s_new"]
    tool_key_takes_precedence [where it = 0 and be = delegate_then_done and w = w_empty
      and rt = ex_rt and ag = coordinator and s = s_new and an = "JStr ''Summarizer''"
      and kvs = "[(''agent'', JStr ''Summarizer''), (''message'', JStr ''summarize X'')]"
      and messages = "seed_messages coordinator (JStr ''hi'') s_new"]
  by (simp add: run_simps ex_simps both_keys_then_done_def delegate_then_done_def)

section \<open>The entry point and the session store\<close>

lemma run_async_process:
  "run_async rt be ag uid sid nm w =
     (case process_message rt be ag (JStr (extract_text nm))
             (add_message (Session sid uid (name ag)) ''user'' (JStr (extract_text nm))) w of
        (Inl e, w') \<Rightarrow> (Inl e, w')
      | (Inr response_text, w') \<Rightarrow> (Inr [ResponseEvent [response_text]], w'))"
  by (simp add: run_async_def Let_def split: prod.splits sum.splits)

lemma loop_extends:
  "\<exists>cs. calls (snd (loop rt be ag s it ms w)) = calls w @ cs"
  using world_after(2) [of it ag w rt be s ms] by (auto simp: within_def)

lemma delegation_extends:
  "\<exists>cs. calls (snd (handle_agent_delegation rt be ag an m s w)) = calls w @ cs"
  using world_after(3) [of ag w rt be an m s] by (auto simp: within_def)

lemma loop_first_call:
  assumes "it < max_iterations"
  shows "\<exists>cs. calls (snd (loop rt be ag s it messages w)) = calls w @ messages # cs"
proof (cases "be (length (calls w))")
  case (Inl t)
  with assms show ?thesis by (simp add: loop_failure)
next
  case (Inr r)
  let ?y = "called messages w"
  have next_loop: "\<exists>cs. calls (snd (loop rt be ag s it' ms w1)) = calls w @ messages # cs"
    if "\<exists>cs. calls w1 = calls ?y @ cs" for it' ms w1
    using that loop_extends [of rt be ag s it' ms w1] by auto
  have here: "\<exists>cs. calls ?y = calls ?y @ cs" by simp
  have deleg: "\<exists>cs. calls w2 = calls ?y @ cs"
    if "handle_agent_delegation rt be ag an m s ?y = (x, w2)" for an m x w2
    using that delegation_extends [of rt be ag an m s ?y] by simp
  show ?thesis
    unfolding loop_reply [where be = be and w = w, OF assms Inr]
    by (auto split: option.splits sum.splits bool.splits prod.splits
        intro!: next_loop here dest: deleg)
qed

lemma run_async_first_call:
  "calls (snd (run_async rt be ag uid sid nm w)) ! length (calls w) =
     [dict_msg ''system'' (JStr (build_system_prompt ag)),
      dict_msg ''user'' (JStr (extract_text nm)),
      dict_msg ''user'' (JStr (extract_text nm))]"
proof -
  let ?m = "JStr (extract_text nm)"
  let ?s = "add_message (Session sid uid (name ag)) ''user'' ?m"
  have seed: "seed_messages ag ?m ?s =
      [dict_msg ''system'' (JStr (build_system_prompt ag)), dict_msg ''user'' ?m,
       dict_msg ''user'' ?m]"
    by (simp add: seed_messages_def get_messages_dict_def add_message_def Session_def
        to_dict_def)
  have "calls (snd (run_async rt be ag uid sid nm w))
      = calls (snd (process_message rt be ag ?m ?s w))"
    by (simp add: run_async_process split: prod.splits sum.splits)
  moreover obtain cs where "calls (snd (process_message rt be ag ?m ?s w))
      = calls w @ seed_messages ag ?m ?s # cs"
    using loop_first_call [of 0 rt be ag ?s "seed_messages ag ?m ?s" w]
    by (auto simp: process_message.simps max_iterations_def)
  ultimately show ?thesis by (simp add: seed)
qed

lemma run_async_sessions: "sessions (snd (run_async rt be ag uid sid nm w)) = sessions w"
  using world_after(1) [of ag w rt be "JStr (extract_text nm)"
      "add_message (Session sid uid (name ag)) ''user'' (JStr (extract_text nm))"]
  by (auto simp: run_async_process within_def split: prod.splits sum.splits)

lemma run_async_sessions_result:
  "run_async rt be ag uid sid nm w = (x, w') \<Longrightarrow> sessions w' = sessions w"
  using run_async_sessions [of rt be ag uid sid nm w] by simp

lemma request_keeps_stored_session:
  assumes "req_session_id req = Some sid" and "sid \<noteq> []"
    and "get_session (runner_app_name r) ''default_user'' sid w = Some s0"
  shows "sessions (snd (process_agent_request rt be (Some r) req fid mc w)) = sessions w"
  using assms
  by (auto simp: process_agent_request_def runner_run_async_def Let_def
      split: prod.splits sum.splits dest: run_async_sessions_result)

section \<open>Failures of the completion API\<close>




section \<open>The history of the stored session\<close>

text \<open>
  C2 fails on the code: \<^verbatim>\<open>run_async\<close> appends the two messages to a \<^verbatim>\<open>Session\<close> it has just
  made, which is dropped when it returns. After a successful request the history of the
  session stored under the request's key is still empty (and by
  \<open>request_keeps_stored_session\<close> no request changes a stored session).
\<close>

theorem stored_history_not_extended:
  "fst (process_agent_request ex_rt replies_hello (Some arrow_runner) hi_request ''fresh-id''
          [] w_empty)
     = Inr \<lparr>response = ''hello'', resp_session_id = Some ''s1'', event_count = 1\<rparr>
   \<and> map_option history
        (sessions (snd (process_agent_request ex_rt replies_hello (Some arrow_runner)
           hi_request ''fresh-id'' [] w_empty))
          (session_key ''arrow'' ''default_user'' ''s1''))
       = Some []"
  by (simp add: process_agent_request_def runner_run_async_def run_async_process run_simps
      ex_simps replies_hello_def arrow_runner_def hi_request_def get_session_def
      create_session_def session_key_def extract_text_def strip_def py_isspace_def
      add_message_def to_dict_def Let_def)

section \<open>The messages of the first call\<close>

text \<open>
  C3 fails on the code: \<^verbatim>\<open>run_async\<close> appends the user message to the history of its
  session before \<^verbatim>\<open>_process_message\<close> puts the history and then the message into the
  working list, so the first call carries the user message twice (for every input, by
  \<open>run_async_first_call\<close>).
\<close>

theorem first_call_repeats_user_message:
  "calls (snd (run_async ex_rt replies_hello coordinator ''default_user'' ''s1''
        (Some [Part (Some ''hi'')]) w_empty))
     = [[dict_msg ''system'' (JStr (build_system_prompt coordinator)),
         dict_msg ''user'' (JStr ''hi''),
         dict_msg ''user'' (JStr ''hi'')]]"
  by (simp add: run_async_process run_simps ex_simps replies_hello_def extract_text_def
      strip_def py_isspace_def add_message_def to_dict_def)

end
